theory Spec2Isabelle
  imports Complex_Main
begin

section \<open>Shared output schema\<close>

text \<open>
  The three interfaces \<open>Tab\<close>, \<open>TabGroup\<close> and \<open>Profile\<close> that \<open>safari.ts\<close>,
  \<open>raindrop.ts\<close>, \<open>list.ts\<close> and \<open>describe.ts\<close> all declare.
\<close>

record Tab =
  title :: string
  url :: string

record TabGroup =
  name :: string
  tabs :: "Tab list"

record Profile =
  pname :: string
  tabGroups :: "TabGroup list"

text \<open>Every way one of the commands leaves with a non-zero exit status.\<close>

datatype error =
    NoCachedData
  | IOError
  | DBError
  | HTTPError nat string
  | AllSourcesFailed

section \<open>The Safari reader (\<open>safari.ts\<close>)\<close>

text \<open>
  A row of the \<open>bookmarks\<close> table, restricted to the columns the queries read. The
  integer columns are always populated; \<open>title\<close> and \<open>url\<close> are TEXT columns that may
  hold SQL NULL, which is \<open>None\<close>. The table is the list of its rows in scan order.
\<close>

record BookmarkRow =
  b_id :: int
  b_parent :: int
  b_type :: int
  b_subtype :: int
  b_title :: "string option"
  b_url :: "string option"
  b_num_children :: int
  b_hidden :: int
  b_order_index :: int

type_synonym bookmarks = "BookmarkRow list"

text \<open>
  \<open>WHERE type = 1 AND parent = 0 AND subtype = 0 AND num_children > 0 AND hidden = 0
  ORDER BY id DESC\<close>
\<close>

definition personalGroupWhere :: "BookmarkRow \<Rightarrow> bool" where
  "personalGroupWhere r \<longleftrightarrow>
     b_type r = 1 \<and> b_parent r = 0 \<and> b_subtype r = 0 \<and> 0 < b_num_children r \<and> b_hidden r = 0"

definition personalGroups :: "bookmarks \<Rightarrow> BookmarkRow list" where
  "personalGroups db = rev (sort_key b_id (filter personalGroupWhere db))"

text \<open>
  \<open>WHERE parent = ? AND url != '' AND title NOT IN ('TopScopedBookmarkList', 'Untitled',
  'Start Page') ORDER BY order_index ASC\<close>. A comparison with NULL is not true, so a row
  whose \<open>url\<close> or \<open>title\<close> is NULL is not selected. Rows with equal \<open>order_index\<close> stay
  in scan order.
\<close>

definition excludedTitles :: "string list" where
  "excludedTitles = [''TopScopedBookmarkList'', ''Untitled'', ''Start Page'']"

definition tabWhere :: "int \<Rightarrow> BookmarkRow \<Rightarrow> bool" where
  "tabWhere gid r \<longleftrightarrow>
     b_parent r = gid
     \<and> (case b_url r of None \<Rightarrow> False | Some u \<Rightarrow> u \<noteq> [])
     \<and> (case b_title r of None \<Rightarrow> False | Some t \<Rightarrow> t \<notin> set excludedTitles)"

definition tabRows :: "bookmarks \<Rightarrow> int \<Rightarrow> BookmarkRow list" where
  "tabRows db gid = sort_key b_order_index (filter (tabWhere gid) db)"

text \<open>\<open>SELECT title, url\<close>: the projection of a selected row, whose two columns are not NULL.\<close>

definition selectTitleUrl :: "BookmarkRow \<Rightarrow> Tab option" where
  "selectTitleUrl r =
     (case b_title r of
        None \<Rightarrow> None
      | Some t \<Rightarrow> (case b_url r of None \<Rightarrow> None | Some u \<Rightarrow> Some \<lparr>title = t, url = u\<rparr>))"

definition queryTabs :: "bookmarks \<Rightarrow> int \<Rightarrow> Tab list" where
  "queryTabs db gid = List.map_filter selectTitleUrl (tabRows db gid)"

text \<open>\<open>group.title || "(untitled)"\<close>: NULL and the empty string are both falsy.\<close>

definition groupName :: "BookmarkRow \<Rightarrow> string" where
  "groupName g =
     (case b_title g of
        None \<Rightarrow> ''(untitled)''
      | Some t \<Rightarrow> if t = [] then ''(untitled)'' else t)"

text \<open>
  The loop \<open>for (const group of groups)\<close>: a group is pushed only when its tab query
  returned at least one row.
\<close>

fun pushGroups :: "bookmarks \<Rightarrow> BookmarkRow list \<Rightarrow> TabGroup list" where
  "pushGroups db [] = []"
| "pushGroups db (g # gs) =
     (let ts = queryTabs db (b_id g) in
      if 0 < length ts
      then \<lparr>name = groupName g, tabs = ts\<rparr> # pushGroups db gs
      else pushGroups db gs)"

text \<open>\<open>WHERE subtype = 2 AND title != ''\<close>, with no ORDER BY: scan order.\<close>

definition profileWhere :: "BookmarkRow \<Rightarrow> bool" where
  "profileWhere r \<longleftrightarrow>
     b_subtype r = 2 \<and> (case b_title r of None \<Rightarrow> False | Some t \<Rightarrow> t \<noteq> [])"

definition additionalProfiles :: "bookmarks \<Rightarrow> BookmarkRow list" where
  "additionalProfiles db = filter profileWhere db"

definition profileTitle :: "BookmarkRow \<Rightarrow> string" where
  "profileTitle r = (case b_title r of None \<Rightarrow> [] | Some t \<Rightarrow> t)"

text \<open>\<open>WHERE parent = ? AND subtype = 0 AND num_children > 0 ORDER BY id DESC\<close>\<close>

definition subGroupWhere :: "int \<Rightarrow> BookmarkRow \<Rightarrow> bool" where
  "subGroupWhere pid r \<longleftrightarrow> b_parent r = pid \<and> b_subtype r = 0 \<and> 0 < b_num_children r"

definition profileGroups :: "bookmarks \<Rightarrow> int \<Rightarrow> BookmarkRow list" where
  "profileGroups db pid = rev (sort_key b_id (filter (subGroupWhere pid) db))"

definition personalProfile :: "bookmarks \<Rightarrow> Profile" where
  "personalProfile db = \<lparr>pname = ''Personal'', tabGroups = pushGroups db (personalGroups db)\<rparr>"

definition profileEntry :: "bookmarks \<Rightarrow> BookmarkRow \<Rightarrow> Profile" where
  "profileEntry db prof =
     \<lparr>pname = profileTitle prof, tabGroups = pushGroups db (profileGroups db (b_id prof))\<rparr>"

definition safariProfiles :: "bookmarks \<Rightarrow> Profile list" where
  "safariProfiles db = personalProfile db # map (profileEntry db) (additionalProfiles db)"

text \<open>
  The command as a whole: without a cached database it exits with status 1 before any
  query; \<open>None\<close> is the missing cache file.
\<close>

definition safariTabgroups :: "bookmarks option \<Rightarrow> error + Profile list" where
  "safariTabgroups cached =
     (case cached of None \<Rightarrow> Inl NoCachedData | Some db \<Rightarrow> Inr (safariProfiles db))"

section \<open>The Raindrop normalizer (\<open>raindrop.ts\<close>)\<close>

text \<open>
  The cached JSON document. Of a collection the normalizer reads \<open>_id\<close>, \<open>title\<close> and
  \<open>parent?.$id\<close>; of a raindrop \<open>title\<close>, \<open>link\<close> and \<open>collection?.$id\<close>. A field that is
  absent or null is \<open>None\<close>.
\<close>

record Collection =
  c_id :: int
  c_title :: string
  c_parent :: "int option"

record Raindrop =
  r_title :: "string option"
  r_link :: "string option"
  r_collection :: "int option"

record RaindropCache =
  fetchedAt :: string
  collections :: "Collection list"
  raindrops :: "Raindrop list"

text \<open>\<open>for (const c of collections) titleById.set(c._id, c.title)\<close>: a later entry replaces
  an earlier one with the same id.\<close>

definition titleById :: "Collection list \<Rightarrow> (int \<rightharpoonup> string)" where
  "titleById cs = fold (\<lambda>c m. m(c_id c \<mapsto> c_title c)) cs Map.empty"

text \<open>
  \<open>fullTitle\<close>, with the lookup it closes over as its first argument. Both guards are
  truthiness tests: a parent id of 0 and an empty parent title take the last line.
\<close>

definition fullTitle :: "(int \<rightharpoonup> string) \<Rightarrow> Collection \<Rightarrow> string" where
  "fullTitle tb col =
     (case c_parent col of
        None \<Rightarrow> c_title col
      | Some p \<Rightarrow>
          if p \<noteq> 0 then
            (case tb p of
               None \<Rightarrow> c_title col
             | Some parentTitle \<Rightarrow>
                 if parentTitle \<noteq> [] then parentTitle @ '' / '' @ c_title col
                 else c_title col)
          else c_title col)"

text \<open>The body of \<open>for (const r of raindrops)\<close>: \<open>colId == null\<close> skips the raindrop.\<close>

definition groupRaindrop :: "Raindrop \<Rightarrow> (int \<rightharpoonup> Raindrop list) \<Rightarrow> (int \<rightharpoonup> Raindrop list)" where
  "groupRaindrop r m =
     (case r_collection r of
        None \<Rightarrow> m
      | Some colId \<Rightarrow>
          (case m colId of
             None \<Rightarrow> m(colId \<mapsto> [r])
           | Some list \<Rightarrow> m(colId \<mapsto> list @ [r])))"

definition raindropsByCollection :: "Raindrop list \<Rightarrow> (int \<rightharpoonup> Raindrop list)" where
  "raindropsByCollection rs = fold groupRaindrop rs Map.empty"

text \<open>
  \<open>.filter(r => r.link).map(r => ({ title: r.title || "(untitled)", url: r.link }))\<close> on one
  raindrop: \<open>None\<close> when the filter rejects it.
\<close>

definition raindropTab :: "Raindrop \<Rightarrow> Tab option" where
  "raindropTab r =
     (case r_link r of
        None \<Rightarrow> None
      | Some l \<Rightarrow>
          if l = [] then None
          else Some \<lparr>title = (case r_title r of
                                None \<Rightarrow> ''(untitled)''
                              | Some t \<Rightarrow> if t = [] then ''(untitled)'' else t),
                     url = l\<rparr>)"

text \<open>The loop \<open>for (const col of collections)\<close>.\<close>

fun pushCollections ::
  "(int \<rightharpoonup> string) \<Rightarrow> (int \<rightharpoonup> Raindrop list) \<Rightarrow> Collection list \<Rightarrow> TabGroup list" where
  "pushCollections tb byCol [] = []"
| "pushCollections tb byCol (col # cols) =
     (let colRaindrops = (case byCol (c_id col) of None \<Rightarrow> [] | Some l \<Rightarrow> l) in
      if length colRaindrops = 0 then pushCollections tb byCol cols
      else
        (let ts = List.map_filter raindropTab colRaindrops in
         if 0 < length ts
         then \<lparr>name = fullTitle tb col, tabs = ts\<rparr> # pushCollections tb byCol cols
         else pushCollections tb byCol cols))"

definition toTabGroups :: "RaindropCache \<Rightarrow> Profile list" where
  "toTabGroups cache =
     [\<lparr>pname = ''Raindrop.io'',
       tabGroups = pushCollections (titleById (collections cache))
                     (raindropsByCollection (raindrops cache)) (collections cache)\<rparr>]"

definition raindropTabgroups :: "RaindropCache option \<Rightarrow> error + Profile list" where
  "raindropTabgroups cached =
     (case cached of None \<Rightarrow> Inl NoCachedData | Some cache \<Rightarrow> Inr (toTabGroups cache))"

section \<open>The Safari sync (\<open>syncSafari\<close> in \<open>sync.ts\<close>)\<close>

text \<open>
  The database file and its two siblings, in the source directory and in the cache
  directory. A directory is a partial map from the three names to files; a file has the
  two time stamps \<open>statSync\<close> reads and its bytes. \<open>mtimeMs\<close> and \<open>atimeMs\<close> are numbers
  of milliseconds with a fractional part, since the file system keeps finer stamps than a
  millisecond; they are rationals here.
\<close>

datatype suffix = DbFile | WalFile | ShmFile

record fsfile =
  mtimeMs :: rat
  atimeMs :: rat
  content :: string

type_synonym dbfiles = "suffix \<rightharpoonup> fsfile"

text \<open>
  What \<open>syncSafari\<close> gets from outside the program: the time stamp the operating system
  gives a file written by \<open>copyFileSync\<close>; what opening the cached database, running
  \<open>PRAGMA wal_checkpoint(TRUNCATE)\<close> and closing it does to the cached files, and whether
  it threw; whether \<open>utimesSync\<close> succeeds on a cached file; and the whole number of
  milliseconds that the \<open>Date\<close> objects \<open>atime\<close> and \<open>mtime\<close> of \<open>statSync\<close> hold for a
  time stamp (a \<open>Date\<close> has no fraction of a millisecond).
\<close>

record sys =
  copyStamp :: "suffix \<Rightarrow> rat"
  checkpoint :: "dbfiles \<Rightarrow> bool \<times> dbfiles"
  utimesOk :: "suffix \<Rightarrow> bool"
  toDate :: "rat \<Rightarrow> int"

datatype outcome = Copied | Fresh

text \<open>
  \<open>let newest = statSync(db).mtimeMs; for (const suffix of ["-wal", "-shm"]) ...\<close>,
  used for the source and for the cache.
\<close>

definition newestMtime :: "dbfiles \<Rightarrow> fsfile \<Rightarrow> rat" where
  "newestMtime fs db =
     fold (\<lambda>s newest.
             case fs s of
               None \<Rightarrow> newest
             | Some f \<Rightarrow> if newest < mtimeMs f then mtimeMs f else newest)
          [WalFile, ShmFile] (mtimeMs db)"

text \<open>The freshness check: \<open>statSync(dbSource)\<close> throws when the source is missing.\<close>

definition needsCopy :: "dbfiles \<Rightarrow> dbfiles \<Rightarrow> error + bool" where
  "needsCopy src cache =
     (case cache DbFile of
        None \<Rightarrow> Inr True
      | Some cdb \<Rightarrow>
          (case src DbFile of
             None \<Rightarrow> Inl IOError
           | Some sdb \<Rightarrow> Inr (\<not> newestMtime src sdb \<le> newestMtime cache cdb)))"

definition copyFileSync :: "sys \<Rightarrow> suffix \<Rightarrow> fsfile \<Rightarrow> dbfiles \<Rightarrow> dbfiles" where
  "copyFileSync env s f cache =
     cache(s \<mapsto> \<lparr>mtimeMs = copyStamp env s, atimeMs = copyStamp env s, content = content f\<rparr>)"

definition copyFiles :: "sys \<Rightarrow> dbfiles \<Rightarrow> dbfiles \<Rightarrow> error + dbfiles" where
  "copyFiles env src cache =
     (case src DbFile of
        None \<Rightarrow> Inl IOError
      | Some sdb \<Rightarrow>
          Inr (fold (\<lambda>s c. case src s of None \<Rightarrow> c | Some f \<Rightarrow> copyFileSync env s f c)
                 [WalFile, ShmFile] (copyFileSync env DbFile sdb cache)))"

text \<open>Lines 64 to 107: the decision and the copy, before the database is opened.\<close>

definition copyPhase :: "sys \<Rightarrow> dbfiles \<Rightarrow> dbfiles \<Rightarrow> error + bool \<times> dbfiles" where
  "copyPhase env src cache =
     (case needsCopy src cache of
        Inl e \<Rightarrow> Inl e
      | Inr nc \<Rightarrow>
          if nc then (case copyFiles env src cache of Inl e \<Rightarrow> Inl e | Inr c \<Rightarrow> Inr (True, c))
          else Inr (False, cache))"

text \<open>
  The loop of the \<open>finally\<close> block: \<open>const { atime, mtime } = statSync(src);
  utimesSync(dst, atime, mtime)\<close> for each pair present on both sides. The cached file gets
  the whole milliseconds of the two \<open>Date\<close> objects; a failure is swallowed.
\<close>

definition restoreTimestamps :: "sys \<Rightarrow> dbfiles \<Rightarrow> dbfiles \<Rightarrow> dbfiles" where
  "restoreTimestamps env src cache =
     fold (\<lambda>s c.
             case src s of
               None \<Rightarrow> c
             | Some sf \<Rightarrow>
                 (case c s of
                    None \<Rightarrow> c
                  | Some cf \<Rightarrow>
                      if utimesOk env s
                      then c(s \<mapsto> cf\<lparr>mtimeMs := of_int (toDate env (mtimeMs sf)),
                                    atimeMs := of_int (toDate env (atimeMs sf))\<rparr>)
                      else c))
          [DbFile, WalFile, ShmFile] cache"

text \<open>
  \<open>syncSafari\<close>: the result and the cache directory it leaves. The source directory is
  only read. A failed checkpoint still runs the \<open>finally\<close> block before the error leaves.
\<close>

definition syncSafari :: "sys \<Rightarrow> dbfiles \<Rightarrow> dbfiles \<Rightarrow> (error + outcome) \<times> dbfiles" where
  "syncSafari env src cache =
     (case copyPhase env src cache of
        Inl e \<Rightarrow> (Inl e, cache)
      | Inr (nc, cache1) \<Rightarrow>
          (let (ok, cache2) = checkpoint env cache1;
               cache3 = restoreTimestamps env src cache2
           in (if ok then Inr (if nc then Copied else Fresh) else Inl DBError, cache3)))"

section \<open>The paginated sweep (\<open>fetchAllRaindrops\<close> in \<open>sync.ts\<close>)\<close>

text \<open>
  The server is a function from the page number \<open>N\<close> of
  \<open>GET /raindrops/0?perpage=50&page=N\<close> to the error \<open>raindropApi\<close> throws or the items of
  the response. The loop has no bound of its own, so its model is a partial function:
  \<open>None\<close> is the loop that never ends. Beside \<open>all\<close> the model keeps the list of the
  pages requested so far.
\<close>

type_synonym api = "nat \<Rightarrow> error + Raindrop list"

partial_function (option) fetchPages ::
  "api \<Rightarrow> nat \<Rightarrow> nat list \<Rightarrow> Raindrop list \<Rightarrow> (nat list \<times> (error + Raindrop list)) option" where
  "fetchPages server page requested all =
     (case server page of
        Inl e \<Rightarrow> Some (requested @ [page], Inl e)
      | Inr items \<Rightarrow>
          if length items = 0 then Some (requested @ [page], Inr all)
          else if length items < 50 then Some (requested @ [page], Inr (all @ items))
          else fetchPages server (page + 1) (requested @ [page]) (all @ items))"

definition fetchAllRaindrops :: "api \<Rightarrow> (nat list \<times> (error + Raindrop list)) option" where
  "fetchAllRaindrops server = fetchPages server 0 [] []"

definition pageItems :: "api \<Rightarrow> nat \<Rightarrow> Raindrop list" where
  "pageItems server page = (case server page of Inl e \<Rightarrow> [] | Inr items \<Rightarrow> items)"

section \<open>The aggregator (\<open>list.ts\<close>; \<open>describe.ts\<close> gathers its groups the same way)\<close>

text \<open>
  Each requested source is a child process: a non-zero exit status is \<open>Inl\<close>, the
  profiles parsed from its standard output are \<open>Inr\<close>. A finished child either counts as
  failed or appends its profiles to \<open>allProfiles\<close>.
\<close>

type_synonym gathered = "Profile list \<times> nat"

definition finishSource :: "error + Profile list \<Rightarrow> gathered \<Rightarrow> gathered" where
  "finishSource run st =
     (case st of (allProfiles, sourcesFailed) \<Rightarrow>
        (case run of
           Inl e \<Rightarrow> (allProfiles, sourcesFailed + 1)
         | Inr ps \<Rightarrow> (allProfiles @ ps, sourcesFailed)))"

text \<open>
  \<open>list.ts\<close> from its flags to its result. The two children run concurrently and each
  appends when it has finished; \<open>raindropFirst\<close> says that the Raindrop child finished
  before the Safari child.
\<close>

definition listTabgroups ::
  "bool \<Rightarrow> bool \<Rightarrow> bool \<Rightarrow> error + Profile list \<Rightarrow> error + Profile list \<Rightarrow> error + Profile list" where
  "listTabgroups safariFlag raindropFlag raindropFirst safariRun raindropRun =
     (let neither = \<not> safariFlag \<and> \<not> raindropFlag;
          wantSafari = safariFlag \<or> neither;
          wantRaindrop = raindropFlag \<or> neither;
          sourcesRequested = (if wantSafari then 1 else 0) + (if wantRaindrop then 1 else (0::nat));
          finished = (if raindropFirst
                      then (if wantRaindrop then [raindropRun] else []) @ (if wantSafari then [safariRun] else [])
                      else (if wantSafari then [safariRun] else []) @ (if wantRaindrop then [raindropRun] else []));
          (allProfiles, sourcesFailed) = fold finishSource finished ([], 0)
      in if sourcesFailed = sourcesRequested then Inl AllSourcesFailed else Inr allProfiles)"

section \<open>Notions used to state the properties\<close>

subsection \<open>Safari reader: the rows behind the output\<close>

text \<open>The tab a selected row is rendered as.\<close>

definition rowTab :: "BookmarkRow \<Rightarrow> Tab" where
  "rowTab r = \<lparr>title = (case b_title r of None \<Rightarrow> [] | Some t \<Rightarrow> t),
              url = (case b_url r of None \<Rightarrow> [] | Some u \<Rightarrow> u)\<rparr>"

text \<open>The group a group row is rendered as, and the group rows of a query result that
  have at least one selected tab row.\<close>

definition rowGroup :: "bookmarks \<Rightarrow> BookmarkRow \<Rightarrow> TabGroup" where
  "rowGroup db g = \<lparr>name = groupName g, tabs = map rowTab (tabRows db (b_id g))\<rparr>"

definition emittedGroups :: "bookmarks \<Rightarrow> BookmarkRow list \<Rightarrow> BookmarkRow list" where
  "emittedGroups db gs = filter (\<lambda>g. tabRows db (b_id g) \<noteq> []) gs"

text \<open>For each profile of the output, in order, the group rows its groups come from.\<close>

definition profileRows :: "bookmarks \<Rightarrow> BookmarkRow list list" where
  "profileRows db =
     emittedGroups db (personalGroups db)
     # map (\<lambda>prof. emittedGroups db (profileGroups db (b_id prof))) (additionalProfiles db)"

subsection \<open>Raindrop normalizer\<close>

text \<open>The title of the last collection of the list that carries the id \<open>k\<close>.\<close>

fun lastTitle :: "Collection list \<Rightarrow> int \<Rightarrow> string option" where
  "lastTitle [] k = None"
| "lastTitle (c # cs) k =
     (case lastTitle cs k of
        Some t \<Rightarrow> Some t
      | None \<Rightarrow> if c_id c = k then Some (c_title c) else None)"

text \<open>The tabs of the raindrops that name the collection \<open>cid\<close> and carry a link.\<close>

definition linkedTabs :: "Raindrop list \<Rightarrow> int \<Rightarrow> Tab list" where
  "linkedTabs rs cid = List.map_filter raindropTab (filter (\<lambda>r. r_collection r = Some cid) rs)"

subsection \<open>Safari sync\<close>

text \<open>The files of a directory that exist, and the greatest modification time among them.\<close>

definition present :: "dbfiles \<Rightarrow> fsfile list" where
  "present fs = List.map_filter fs [DbFile, WalFile, ShmFile]"

definition newestOf :: "dbfiles \<Rightarrow> rat" where
  "newestOf fs = Max (set (map mtimeMs (present fs)))"

text \<open>The cache directory after every file present at the source has been copied over
  its cached namesake; a cached file without a source namesake stays.\<close>

definition copied :: "sys \<Rightarrow> dbfiles \<Rightarrow> dbfiles \<Rightarrow> dbfiles" where
  "copied env src cache =
     (\<lambda>s. case src s of
            None \<Rightarrow> cache s
          | Some f \<Rightarrow>
              Some \<lparr>mtimeMs = copyStamp env s, atimeMs = copyStamp env s, content = content f\<rparr>)"

text \<open>The bytes of the three files of a directory, \<open>None\<close> for a file that does not exist.\<close>

definition bytes :: "dbfiles \<Rightarrow> string option list" where
  "bytes fs = map (\<lambda>s. map_option content (fs s)) [DbFile, WalFile, ShmFile]"

text \<open>The modification times of the three files of a directory.\<close>

definition stamps :: "dbfiles \<Rightarrow> rat option list" where
  "stamps fs = map (\<lambda>s. map_option mtimeMs (fs s)) [DbFile, WalFile, ShmFile]"

definition cacheAfter :: "sys \<Rightarrow> dbfiles \<Rightarrow> dbfiles \<Rightarrow> dbfiles" where
  "cacheAfter env src cache = snd (syncSafari env src cache)"

subsection \<open>Aggregator\<close>

text \<open>What a source adds to the output: nothing when it was not requested or failed.\<close>

definition contribution :: "bool \<Rightarrow> error + Profile list \<Rightarrow> Profile list" where
  "contribution want run = (if want then (case run of Inl e \<Rightarrow> [] | Inr ps \<Rightarrow> ps) else [])"

section \<open>Example inputs\<close>

text \<open>
  A table with three root groups, of which group 6 has only an excluded child, and one
  additional profile whose only group has an empty title.
\<close>

definition exampleDb :: bookmarks where
  "exampleDb =
     [\<lparr>b_id = 5, b_parent = 0, b_type = 1, b_subtype = 0, b_title = Some ''Research'',
       b_url = None, b_num_children = 2, b_hidden = 0, b_order_index = 0\<rparr>,
      \<lparr>b_id = 6, b_parent = 0, b_type = 1, b_subtype = 0, b_title = Some ''Blank'',
       b_url = None, b_num_children = 1, b_hidden = 0, b_order_index = 1\<rparr>,
      \<lparr>b_id = 7, b_parent = 0, b_type = 1, b_subtype = 0, b_title = Some ''Travel'',
       b_url = None, b_num_children = 1, b_hidden = 0, b_order_index = 2\<rparr>,
      \<lparr>b_id = 11, b_parent = 5, b_type = 0, b_subtype = 0, b_title = Some ''B page'',
       b_url = Some ''https://b.example'', b_num_children = 0, b_hidden = 0, b_order_index = 1\<rparr>,
      \<lparr>b_id = 12, b_parent = 5, b_type = 0, b_subtype = 0, b_title = Some ''A page'',
       b_url = Some ''https://a.example'', b_num_children = 0, b_hidden = 0, b_order_index = 0\<rparr>,
      \<lparr>b_id = 13, b_parent = 6, b_type = 0, b_subtype = 0, b_title = Some ''Start Page'',
       b_url = Some ''https://s.example'', b_num_children = 0, b_hidden = 0, b_order_index = 0\<rparr>,
      \<lparr>b_id = 14, b_parent = 7, b_type = 0, b_subtype = 0, b_title = Some ''Trains'',
       b_url = Some ''https://t.example'', b_num_children = 0, b_hidden = 0, b_order_index = 0\<rparr>,
      \<lparr>b_id = 20, b_parent = 0, b_type = 1, b_subtype = 2, b_title = Some ''Work'',
       b_url = None, b_num_children = 1, b_hidden = 0, b_order_index = 3\<rparr>,
      \<lparr>b_id = 21, b_parent = 20, b_type = 1, b_subtype = 0, b_title = Some [],
       b_url = None, b_num_children = 1, b_hidden = 0, b_order_index = 0\<rparr>,
      \<lparr>b_id = 22, b_parent = 21, b_type = 0, b_subtype = 0, b_title = Some ''Docs'',
       b_url = Some ''https://docs.example'', b_num_children = 0, b_hidden = 0, b_order_index = 0\<rparr>]"

text \<open>A group whose only tab has an empty title and a URL.\<close>

definition untitledTabDb :: bookmarks where
  "untitledTabDb =
     [\<lparr>b_id = 5, b_parent = 0, b_type = 1, b_subtype = 0, b_title = Some ''Research'',
       b_url = None, b_num_children = 1, b_hidden = 0, b_order_index = 0\<rparr>,
      \<lparr>b_id = 6, b_parent = 5, b_type = 0, b_subtype = 0, b_title = Some [],
       b_url = Some ''https://example.com'', b_num_children = 0, b_hidden = 0, b_order_index = 0\<rparr>]"

text \<open>A collection, its child with two raindrops (one without a link), and a raindrop
  that names no collection.\<close>

definition devCollections :: "Collection list" where
  "devCollections =
     [\<lparr>c_id = 1, c_title = ''Dev Tools'', c_parent = None\<rparr>,
      \<lparr>c_id = 2, c_title = ''Frameworks'', c_parent = Some 1\<rparr>]"

definition bunRaindrop :: Raindrop where
  "bunRaindrop = \<lparr>r_title = Some ''Bun'', r_link = Some ''https://bun.sh'', r_collection = Some 2\<rparr>"

definition noLinkRaindrop :: Raindrop where
  "noLinkRaindrop = \<lparr>r_title = Some ''Draft'', r_link = None, r_collection = Some 2\<rparr>"

definition strayRaindrop :: Raindrop where
  "strayRaindrop = \<lparr>r_title = Some ''Stray'', r_link = Some ''https://stray.example'', r_collection = None\<rparr>"

definition devCache :: RaindropCache where
  "devCache = \<lparr>fetchedAt = ''2024-01-01T00:00:00.000Z'', collections = devCollections,
               raindrops = [bunRaindrop, noLinkRaindrop]\<rparr>"

text \<open>The same child under a parent whose title is the empty string.\<close>

definition blankParentCache :: RaindropCache where
  "blankParentCache =
     \<lparr>fetchedAt = ''2024-01-01T00:00:00.000Z'',
      collections = [\<lparr>c_id = 1, c_title = [], c_parent = None\<rparr>,
                     \<lparr>c_id = 2, c_title = ''Frameworks'', c_parent = Some 1\<rparr>],
      raindrops = [bunRaindrop]\<rparr>"

text \<open>
  A source directory with a database and a newer write-ahead log, both stamped at whole
  milliseconds; a cache directory that holds only a database file, stamped later than
  both; a cache directory whose three files are older than the source; and a source
  directory that holds only a database, stamped at 50.25 ms.
\<close>

definition liveSource :: dbfiles where
  "liveSource = [DbFile \<mapsto> \<lparr>mtimeMs = 50, atimeMs = 50, content = ''db''\<rparr>,
                 WalFile \<mapsto> \<lparr>mtimeMs = 80, atimeMs = 80, content = ''wal''\<rparr>]"

definition touchedCache :: dbfiles where
  "touchedCache = [DbFile \<mapsto> \<lparr>mtimeMs = 100, atimeMs = 100, content = ''db''\<rparr>]"

definition staleCache :: dbfiles where
  "staleCache = [DbFile \<mapsto> \<lparr>mtimeMs = 10, atimeMs = 10, content = ''old''\<rparr>,
                 WalFile \<mapsto> \<lparr>mtimeMs = 10, atimeMs = 10, content = ''oldwal''\<rparr>,
                 ShmFile \<mapsto> \<lparr>mtimeMs = 10, atimeMs = 10, content = ''oldshm''\<rparr>]"

definition quietSource :: dbfiles where
  "quietSource = [DbFile \<mapsto> \<lparr>mtimeMs = 201 / 4, atimeMs = 201 / 4, content = ''db''\<rparr>]"

text \<open>
  Three systems in which every copy is stamped at 200 ms and every \<open>utimesSync\<close> succeeds.
  In \<open>idleSys\<close> the checkpoint changes no file and a \<open>Date\<close> drops the fraction of a
  millisecond; \<open>roundingSys\<close> differs in that a \<open>Date\<close> holds the nearest millisecond. In
  \<open>closingSys\<close> the checkpoint appends the log to the database file and, as the database
  engine does when the last connection closes, removes the cached \<open>-wal\<close> and \<open>-shm\<close>.
\<close>

definition idleSys :: sys where
  "idleSys = \<lparr>copyStamp = (\<lambda>s. 200), checkpoint = (\<lambda>c. (True, c)), utimesOk = (\<lambda>s. True),
              toDate = floor\<rparr>"

definition roundingSys :: sys where
  "roundingSys = \<lparr>copyStamp = (\<lambda>s. 200), checkpoint = (\<lambda>c. (True, c)), utimesOk = (\<lambda>s. True),
                  toDate = round\<rparr>"

definition closingSys :: sys where
  "closingSys =
     \<lparr>copyStamp = (\<lambda>s. 200),
      checkpoint = (\<lambda>c. (True,
        (case c DbFile of
           None \<Rightarrow> c
         | Some d \<Rightarrow>
             (c(DbFile \<mapsto> d\<lparr>mtimeMs := 300,
                              content := content d
                                @ (case c WalFile of None \<Rightarrow> [] | Some w \<Rightarrow> content w)\<rparr>))
             (WalFile := None, ShmFile := None)))),
      utimesOk = (\<lambda>s. True),
      toDate = floor\<rparr>"

text \<open>
  A table with two additional profiles, and two more rows of subtype 2 that are not
  profiles: one has an empty title, the other a NULL title.
\<close>

definition twoProfilesDb :: bookmarks where
  "twoProfilesDb =
     [\<lparr>b_id = 30, b_parent = 0, b_type = 1, b_subtype = 2, b_title = Some ''Work'',
       b_url = None, b_num_children = 0, b_hidden = 0, b_order_index = 0\<rparr>,
      \<lparr>b_id = 31, b_parent = 0, b_type = 1, b_subtype = 2, b_title = Some [],
       b_url = None, b_num_children = 0, b_hidden = 0, b_order_index = 1\<rparr>,
      \<lparr>b_id = 32, b_parent = 0, b_type = 1, b_subtype = 2, b_title = None,
       b_url = None, b_num_children = 0, b_hidden = 0, b_order_index = 2\<rparr>,
      \<lparr>b_id = 33, b_parent = 0, b_type = 1, b_subtype = 2, b_title = Some ''Home'',
       b_url = None, b_num_children = 0, b_hidden = 0, b_order_index = 3\<rparr>]"

text \<open>A server with one full page and a last page of one item.\<close>

definition twoPages :: api where
  "twoPages page =
     (if page = 0 then Inr (replicate 50 bunRaindrop)
      else if page = 1 then Inr [strayRaindrop]
      else Inr [])"

section \<open>Auxiliary facts\<close>

lemma in_set_map_filter:
  "y \<in> set (List.map_filter f xs) \<longleftrightarrow> (\<exists>x \<in> set xs. f x = Some y)"
  by (induction xs) (auto split: option.splits)

lemma map_filter_all_Some:
  "(\<And>x. x \<in> set xs \<Longrightarrow> f x = Some (g x)) \<Longrightarrow> List.map_filter f xs = map g xs"
  by (induction xs) auto

subsection \<open>Safari reader\<close>

lemma tabRows_where: "r \<in> set (tabRows db gid) \<Longrightarrow> tabWhere gid r \<and> r \<in> set db"
  by (simp add: tabRows_def)

lemma selectTitleUrl_where: "tabWhere gid r \<Longrightarrow> selectTitleUrl r = Some (rowTab r)"
  by (auto simp: tabWhere_def selectTitleUrl_def rowTab_def split: option.splits)

lemma queryTabs_rows: "queryTabs db gid = map rowTab (tabRows db gid)"
  unfolding queryTabs_def
  by (rule map_filter_all_Some) (metis tabRows_where selectTitleUrl_where)

lemma pushGroups_rows: "pushGroups db gs = map (rowGroup db) (emittedGroups db gs)"
  by (induction gs) (simp_all add: emittedGroups_def rowGroup_def queryTabs_rows Let_def)

lemma pushGroups_nonempty: "g \<in> set (pushGroups db gs) \<Longrightarrow> tabs g \<noteq> []"
  by (induction gs) (auto simp: Let_def split: if_splits)

lemma safariProfiles_groups:
  "p \<in> set (safariProfiles db) \<Longrightarrow> \<exists>gs. tabGroups p = pushGroups db gs"
  by (auto simp: safariProfiles_def personalProfile_def profileEntry_def)

lemma desc_by_id:
  assumes "distinct (map b_id db)"
  shows "sorted_wrt (\<lambda>a b. b_id b < b_id a) (rev (sort_key b_id (filter P db)))"
proof -
  let ?xs = "sort_key b_id (filter P db)"
  have "distinct (map b_id (filter P db))"
    using assms by (rule distinct_map_filter)
  then have "distinct (filter P db)" and inj: "inj_on b_id (set (filter P db))"
    by (simp_all add: distinct_map)
  then have "distinct (map b_id ?xs)"
    by (simp add: distinct_map)
  moreover have "sorted (map b_id ?xs)"
    by simp
  ultimately have "sorted_wrt (<) (map b_id ?xs)"
    by (simp add: strict_sorted_iff)
  then have "sorted_wrt (\<lambda>a b. b_id a < b_id b) ?xs"
    by (simp add: sorted_wrt_map)
  then show ?thesis
    by (simp add: sorted_wrt_rev)
qed

text \<open>The reader on a table with one group and one tab.\<close>

lemma research_scenario:
  "safariProfiles
     [\<lparr>b_id = 5, b_parent = 0, b_type = 1, b_subtype = 0, b_title = Some ''Research'',
       b_url = None, b_num_children = 1, b_hidden = 0, b_order_index = 0\<rparr>,
      \<lparr>b_id = 6, b_parent = 5, b_type = 0, b_subtype = 0, b_title = Some ''Example'',
       b_url = Some ''https://example.com'', b_num_children = 0, b_hidden = 0, b_order_index = 0\<rparr>]
   = [\<lparr>pname = ''Personal'',
       tabGroups = [\<lparr>name = ''Research'',
                     tabs = [\<lparr>title = ''Example'', url = ''https://example.com''\<rparr>]\<rparr>]\<rparr>]"
  by (simp add: safariProfiles_def personalProfile_def personalGroups_def
      personalGroupWhere_def additionalProfiles_def profileWhere_def queryTabs_def tabRows_def
      tabWhere_def excludedTitles_def selectTitleUrl_def groupName_def)

lemma exampleDb_tabRows:
  "tabRows exampleDb 5 = [exampleDb ! 4, exampleDb ! 3]"
  "tabRows exampleDb 6 = []"
  "tabRows exampleDb 7 = [exampleDb ! 6]"
  "tabRows exampleDb 21 = [exampleDb ! 9]"
  by (simp_all add: tabRows_def tabWhere_def excludedTitles_def exampleDb_def)

lemma exampleDb_profileRows:
  "profileRows exampleDb = [[exampleDb ! 2, exampleDb ! 0], [exampleDb ! 8]]"
proof -
  have "personalGroups exampleDb = [exampleDb ! 2, exampleDb ! 1, exampleDb ! 0]"
    by (simp add: personalGroups_def personalGroupWhere_def exampleDb_def)
  moreover have "additionalProfiles exampleDb = [exampleDb ! 7]"
    by (simp add: additionalProfiles_def profileWhere_def exampleDb_def)
  moreover have "profileGroups exampleDb 20 = [exampleDb ! 8]"
    by (simp add: profileGroups_def subGroupWhere_def exampleDb_def)
  moreover have "b_id (exampleDb ! 0) = 5" "b_id (exampleDb ! 1) = 6" "b_id (exampleDb ! 2) = 7"
    "b_id (exampleDb ! 7) = 20" "b_id (exampleDb ! 8) = 21"
    by (simp_all add: exampleDb_def)
  ultimately show ?thesis
    by (simp add: profileRows_def emittedGroups_def exampleDb_tabRows)
qed

subsection \<open>Raindrop normalizer\<close>

lemma groupRaindrop_apply:
  "groupRaindrop r m k =
     (if r_collection r = Some k then Some ((case m k of None \<Rightarrow> [] | Some l \<Rightarrow> l) @ [r])
      else m k)"
  by (auto simp: groupRaindrop_def split: option.splits)

lemma groupRaindrop_unassigned: "r_collection r = None \<Longrightarrow> groupRaindrop r m = m"
  by (simp add: groupRaindrop_def)

lemma fold_groupRaindrop:
  "fold groupRaindrop rs m k =
     (let new = filter (\<lambda>r. r_collection r = Some k) rs in
      case m k of
        None \<Rightarrow> (if new = [] then None else Some new)
      | Some old \<Rightarrow> Some (old @ new))"
proof (induction rs arbitrary: m)
  case Nil
  then show ?case by (simp split: option.splits)
next
  case (Cons r rs)
  have "fold groupRaindrop (r # rs) m k = fold groupRaindrop rs (groupRaindrop r m) k"
    by simp
  also have "\<dots> = (let new = filter (\<lambda>r. r_collection r = Some k) rs in
      case groupRaindrop r m k of
        None \<Rightarrow> (if new = [] then None else Some new)
      | Some old \<Rightarrow> Some (old @ new))"
    by (rule Cons.IH)
  also have "\<dots> = (let new = filter (\<lambda>r. r_collection r = Some k) (r # rs) in
      case m k of
        None \<Rightarrow> (if new = [] then None else Some new)
      | Some old \<Rightarrow> Some (old @ new))"
    by (auto simp: groupRaindrop_apply Let_def split: option.splits)
  finally show ?case .
qed

lemma raindropsByCollection_lookup:
  "(case raindropsByCollection rs k of None \<Rightarrow> [] | Some l \<Rightarrow> l)
   = filter (\<lambda>r. r_collection r = Some k) rs"
  by (simp add: raindropsByCollection_def fold_groupRaindrop Let_def)

lemma raindropsByCollection_skip:
  "r_collection r = None \<Longrightarrow>
     raindropsByCollection (xs @ r # ys) = raindropsByCollection (xs @ ys)"
  by (simp add: raindropsByCollection_def groupRaindrop_unassigned)

lemma pushCollections_linked:
  "pushCollections tb (raindropsByCollection rs) cols
   = map (\<lambda>col. \<lparr>name = fullTitle tb col, tabs = linkedTabs rs (c_id col)\<rparr>)
       (filter (\<lambda>col. linkedTabs rs (c_id col) \<noteq> []) cols)"
proof (induction cols)
  case Nil
  then show ?case by simp
next
  case (Cons col cols)
  have "List.map_filter raindropTab
          (case raindropsByCollection rs (c_id col) of None \<Rightarrow> [] | Some l \<Rightarrow> l)
        = linkedTabs rs (c_id col)"
    by (simp add: raindropsByCollection_lookup linkedTabs_def)
  moreover have "linkedTabs rs (c_id col) = []"
    if "(case raindropsByCollection rs (c_id col) of None \<Rightarrow> [] | Some l \<Rightarrow> l) = []"
    using that by (simp add: raindropsByCollection_lookup linkedTabs_def)
  ultimately show ?case
    using Cons.IH by (simp add: Let_def)
qed

lemma toTabGroups_linked:
  "toTabGroups cache =
     [\<lparr>pname = ''Raindrop.io'',
       tabGroups =
         map (\<lambda>col. \<lparr>name = fullTitle (titleById (collections cache)) col,
                      tabs = linkedTabs (raindrops cache) (c_id col)\<rparr>)
           (filter (\<lambda>col. linkedTabs (raindrops cache) (c_id col) \<noteq> []) (collections cache))\<rparr>]"
  by (simp add: toTabGroups_def pushCollections_linked)

lemma raindropTab_nonempty: "raindropTab r = Some t \<Longrightarrow> title t \<noteq> [] \<and> url t \<noteq> []"
  by (auto simp: raindropTab_def split: option.splits if_splits)

lemma linkedTabs_origin:
  "t \<in> set (linkedTabs rs cid) \<Longrightarrow>
     \<exists>r \<in> set rs. r_collection r = Some cid \<and> raindropTab r = Some t"
  by (auto simp: linkedTabs_def in_set_map_filter)

lemma fold_titleById:
  "fold (\<lambda>c m. m(c_id c \<mapsto> c_title c)) cs m k
   = (case lastTitle cs k of Some t \<Rightarrow> Some t | None \<Rightarrow> m k)"
  by (induction cs arbitrary: m) (auto split: option.splits)

lemma titleById_lastTitle: "titleById cs k = lastTitle cs k"
  by (simp add: titleById_def fold_titleById split: option.splits)

lemma lastTitle_None: "lastTitle cs k = None \<longleftrightarrow> k \<notin> c_id ` set cs"
  by (induction cs) (auto split: option.splits)

lemma lastTitle_Some: "lastTitle cs k = Some t \<Longrightarrow> \<exists>c \<in> set cs. c_id c = k \<and> c_title c = t"
  by (induction cs) (auto split: option.splits if_splits)

lemma toTabGroups_group:
  assumes "p \<in> set (toTabGroups cache)" and "g \<in> set (tabGroups p)"
  shows "\<exists>col \<in> set (collections cache).
           name g = fullTitle (titleById (collections cache)) col
           \<and> tabs g = linkedTabs (raindrops cache) (c_id col) \<and> tabs g \<noteq> []"
proof -
  from assms(1) have "tabGroups p =
      map (\<lambda>col. \<lparr>name = fullTitle (titleById (collections cache)) col,
                   tabs = linkedTabs (raindrops cache) (c_id col)\<rparr>)
        (filter (\<lambda>col. linkedTabs (raindrops cache) (c_id col) \<noteq> []) (collections cache))"
    by (simp add: toTabGroups_linked)
  with assms(2) show ?thesis
    by auto
qed

lemma devCache_groups:
  "toTabGroups devCache =
     [\<lparr>pname = ''Raindrop.io'',
       tabGroups = [\<lparr>name = ''Dev Tools / Frameworks'',
                     tabs = [\<lparr>title = ''Bun'', url = ''https://bun.sh''\<rparr>]\<rparr>]\<rparr>]"
  by (simp add: toTabGroups_def titleById_def raindropsByCollection_def groupRaindrop_def
      raindropTab_def fullTitle_def devCache_def devCollections_def bunRaindrop_def
      noLinkRaindrop_def)

subsection \<open>Safari sync\<close>

lemma newestMtime_newestOf: "fs DbFile = Some db \<Longrightarrow> newestMtime fs db = newestOf fs"
  by (cases "fs WalFile"; cases "fs ShmFile")
     (auto simp: newestMtime_def newestOf_def present_def max_def)

lemma needsCopy_newestOf:
  assumes "src DbFile = Some sdb"
  shows "needsCopy src cache = Inr (\<not> (cache DbFile \<noteq> None \<and> newestOf src \<le> newestOf cache))"
  using assms by (auto simp: needsCopy_def newestMtime_newestOf split: option.splits)

lemma copyFiles_copied:
  assumes "src DbFile = Some sdb"
  shows "copyFiles env src cache = Inr (copied env src cache)"
proof -
  have "fold (\<lambda>s c. case src s of None \<Rightarrow> c | Some f \<Rightarrow> copyFileSync env s f c)
          [WalFile, ShmFile] (copyFileSync env DbFile sdb cache) s = copied env src cache s" for s
    using assms
    by (cases s; cases "src WalFile"; cases "src ShmFile")
       (simp_all add: copyFileSync_def copied_def)
  then show ?thesis using assms by (auto simp: copyFiles_def)
qed

lemma copyPhase_decision:
  assumes "src DbFile = Some sdb"
  shows "copyPhase env src cache =
           (if cache DbFile \<noteq> None \<and> newestOf src \<le> newestOf cache
            then Inr (False, cache)
            else Inr (True, copied env src cache))"
  by (simp add: copyPhase_def needsCopy_newestOf[of src sdb cache, OF assms]
      copyFiles_copied[of src sdb env cache, OF assms])

lemma restoreTimestamps_apply:
  "restoreTimestamps env src cache s =
     (case src s of
        None \<Rightarrow> cache s
      | Some sf \<Rightarrow>
          (case cache s of
             None \<Rightarrow> None
           | Some cf \<Rightarrow>
               if utimesOk env s
               then Some (cf\<lparr>mtimeMs := of_int (toDate env (mtimeMs sf)),
                             atimeMs := of_int (toDate env (atimeMs sf))\<rparr>)
               else Some cf))"
  by (cases s; cases "src DbFile"; cases "src WalFile"; cases "src ShmFile";
      cases "cache DbFile"; cases "cache WalFile"; cases "cache ShmFile")
     (simp_all add: restoreTimestamps_def)

lemma bytes_restoreTimestamps: "bytes (restoreTimestamps env src cache) = bytes cache"
  by (simp add: bytes_def restoreTimestamps_apply split: option.splits)

lemma quiet_stamp_whole:
  "\<lfloor>201 / 4 :: rat\<rfloor> = 50" "round (201 / 4 :: rat) = 50" "\<not> (201 / 4 :: rat) \<le> 50"
  by (simp_all add: round_def floor_eq_iff)

lemma syncSafari_cases:
  "syncSafari env src cache =
     (case src DbFile of
        None \<Rightarrow> (Inl IOError, cache)
      | Some sdb \<Rightarrow>
          if cache DbFile \<noteq> None \<and> newestOf src \<le> newestOf cache
          then (if fst (checkpoint env cache) then Inr Fresh else Inl DBError,
                restoreTimestamps env src (snd (checkpoint env cache)))
          else (if fst (checkpoint env (copied env src cache)) then Inr Copied else Inl DBError,
                restoreTimestamps env src (snd (checkpoint env (copied env src cache)))))"
proof (cases "src DbFile")
  case None
  then have "copyPhase env src cache = Inl IOError"
    by (simp add: copyPhase_def needsCopy_def copyFiles_def split: option.splits)
  with None show ?thesis
    by (simp add: syncSafari_def)
next
  case (Some sdb)
  then show ?thesis
    by (simp add: syncSafari_def copyPhase_decision[of src sdb env cache, OF Some] split_def)
qed

subsection \<open>Paginated sweep\<close>

lemma fetchPages_run:
  assumes "\<forall>i<n. \<exists>items. server (page + i) = Inr items \<and> 50 \<le> length items"
      and "server (page + n) = Inr lastp" and "length lastp < 50"
  shows "fetchPages server page requested all =
           Some (requested @ [page..<page + n + 1],
                 Inr (all @ concat (map (pageItems server) [page..<page + n + 1])))"
  using assms
proof (induction n arbitrary: page requested all)
  case 0
  then show ?case
    by (subst fetchPages.simps) (simp add: pageItems_def)
next
  case (Suc n)
  from Suc.prems(1) obtain items where it: "server page = Inr items" "50 \<le> length items"
    by (metis add.right_neutral zero_less_Suc)
  have full: "\<forall>i<n. \<exists>items. server (page + 1 + i) = Inr items \<and> 50 \<le> length items"
    using Suc.prems(1) by (metis Suc_less_eq add_Suc_right add_Suc_shift plus_1_eq_Suc add.commute)
  have lastp: "server (page + 1 + n) = Inr lastp"
    using Suc.prems(2) by simp
  have step: "fetchPages server page requested all =
              fetchPages server (page + 1) (requested @ [page]) (all @ items)"
    using it by (subst fetchPages.simps) auto
  have upt: "[page..<page + Suc n + 1] = page # [page + 1..<page + 1 + n + 1]"
    by (simp add: upt_conv_Cons)
  have here: "pageItems server page = items"
    using it by (simp add: pageItems_def)
  show ?case
    unfolding step Suc.IH[OF full lastp Suc.prems(3)] upt
    by (simp add: here)
qed

text \<open>A server whose every page is full keeps the loop running for ever.\<close>

lemma fetchPages_returns_short:
  assumes "fetchPages server page requested all = Some y"
  shows "\<not> (\<forall>i. \<exists>items. server i = Inr items \<and> 50 \<le> length items)"
proof (rule fetchPages.raw_induct
    [where P = "\<lambda>srv _ _ _ _. \<not> (\<forall>i. \<exists>items. srv i = Inr items \<and> 50 \<le> length items)",
      OF _ assms])
  fix f :: "api \<Rightarrow> nat \<Rightarrow> nat list \<Rightarrow> Raindrop list \<Rightarrow> (nat list \<times> (error + Raindrop list)) option"
  fix srv pg req al r
  assume IH: "\<And>a b c d y. f a b c d = Some y \<Longrightarrow>
                \<not> (\<forall>i. \<exists>items. a i = Inr items \<and> 50 \<le> length items)"
    and body: "(case srv pg of
                  Inl e \<Rightarrow> Some (req @ [pg], Inl e)
                | Inr items \<Rightarrow>
                    if length items = 0 then Some (req @ [pg], Inr al)
                    else if length items < 50 then Some (req @ [pg], Inr (al @ items))
                    else f srv (pg + 1) (req @ [pg]) (al @ items)) = Some r"
  show "\<not> (\<forall>i. \<exists>items. srv i = Inr items \<and> 50 \<le> length items)"
  proof
    assume full: "\<forall>i. \<exists>items. srv i = Inr items \<and> 50 \<le> length items"
    then obtain items where it: "srv pg = Inr items" "50 \<le> length items" by blast
    then have "items \<noteq> []" "\<not> length items < 50" by auto
    with body it have "f srv (pg + 1) (req @ [pg]) (al @ items) = Some r"
      by simp
    from IH[OF this] full show False by blast
  qed
qed

lemma fetchAllRaindrops_diverges:
  assumes "\<forall>i. \<exists>items. server i = Inr items \<and> 50 \<le> length items"
  shows "fetchAllRaindrops server = None"
  using fetchPages_returns_short[of server 0 "[]" "[]"] assms
  by (cases "fetchAllRaindrops server") (auto simp: fetchAllRaindrops_def)

section \<open>The properties\<close>

text \<open>
  C1. The claim is that every tab of either source's output has a non-empty title and a
  non-empty url. The Raindrop normalizer meets it, and every Safari tab has a non-empty
  url; but the Safari tab query excludes only three literal titles, so a row with an empty
  title and a URL is emitted with the empty title. The theorem runs the reader on such a
  table.
\<close>

theorem safari_empty_title_tab:
  "safariTabgroups (Some untitledTabDb) =
     Inr [\<lparr>pname = ''Personal'',
           tabGroups = [\<lparr>name = ''Research'',
                         tabs = [\<lparr>title = [], url = ''https://example.com''\<rparr>]\<rparr>]\<rparr>]"
  by (simp add: safariTabgroups_def safariProfiles_def personalProfile_def personalGroups_def
      personalGroupWhere_def additionalProfiles_def profileWhere_def queryTabs_def tabRows_def
      tabWhere_def excludedTitles_def selectTitleUrl_def groupName_def untitledTabDb_def)

text \<open>What does hold of the tabs: the url of a Safari tab and both fields of a Raindrop tab
  are non-empty.\<close>

lemma safari_tab_url_nonempty:
  assumes "p \<in> set (safariProfiles db)" and "g \<in> set (tabGroups p)" and "t \<in> set (tabs g)"
  shows "url t \<noteq> []"
proof -
  from assms(1) obtain gs where "tabGroups p = pushGroups db gs"
    using safariProfiles_groups by blast
  with assms(2) have "g \<in> rowGroup db ` set (emittedGroups db gs)"
    by (simp add: pushGroups_rows)
  then obtain row where "g = rowGroup db row" by auto
  with assms(3) obtain r where "r \<in> set (tabRows db (b_id row))" "t = rowTab r"
    by (auto simp: rowGroup_def)
  then show ?thesis
    using tabRows_where[of r db "b_id row"]
    by (auto simp: tabWhere_def rowTab_def split: option.splits)
qed

lemma raindrop_tab_fields_nonempty:
  assumes "p \<in> set (toTabGroups cache)" and "g \<in> set (tabGroups p)" and "t \<in> set (tabs g)"
  shows "title t \<noteq> [] \<and> url t \<noteq> []"
proof -
  from toTabGroups_group[OF assms(1,2)]
  obtain col :: Collection where "tabs g = linkedTabs (raindrops cache) (c_id col)"
    by blast
  with assms(3) obtain r where "raindropTab r = Some t"
    using linkedTabs_origin by fastforce
  then show ?thesis
    by (rule raindropTab_nonempty)
qed

text \<open>
  C2. The sync on any source and cache directory. Without a source database it ends with
  the I/O error and leaves the cache directory as it was. With one, the copy is skipped
  exactly when a cached database exists and the greatest modification time among the
  source files that exist is at most the greatest among the cached files that exist.
  Otherwise, and always when there is no cached database, every source file that exists
  is copied over its cached namesake, and a cached file without a source namesake stays.
  The checkpoint gets the files so decided, the sync reports the decision unless the
  checkpoint fails, and the bytes the sync leaves are the bytes the checkpoint leaves.
\<close>

theorem safari_copy_decision:
  "syncSafari env src cache =
     (case src DbFile of
        None \<Rightarrow> (Inl IOError, cache)
      | Some sdb \<Rightarrow>
          if cache DbFile \<noteq> None \<and> newestOf src \<le> newestOf cache
          then (if fst (checkpoint env cache) then Inr Fresh else Inl DBError,
                restoreTimestamps env src (snd (checkpoint env cache)))
          else (if fst (checkpoint env (copied env src cache)) then Inr Copied else Inl DBError,
                restoreTimestamps env src (snd (checkpoint env (copied env src cache)))))
   \<and> copyPhase env src cache =
     (case src DbFile of
        None \<Rightarrow> Inl IOError
      | Some sdb \<Rightarrow>
          if cache DbFile \<noteq> None \<and> newestOf src \<le> newestOf cache
          then Inr (False, cache)
          else Inr (True, copied env src cache))
   \<and> bytes (cacheAfter env src cache) =
     (case src DbFile of
        None \<Rightarrow> bytes cache
      | Some sdb \<Rightarrow>
          if cache DbFile \<noteq> None \<and> newestOf src \<le> newestOf cache
          then bytes (snd (checkpoint env cache))
          else bytes (snd (checkpoint env (copied env src cache))))
   \<and> bytes (copied env src cache) =
     map (\<lambda>s. case src s of None \<Rightarrow> map_option content (cache s) | Some f \<Rightarrow> Some (content f))
       [DbFile, WalFile, ShmFile]"
proof -
  have phase: "copyPhase env src cache =
     (case src DbFile of
        None \<Rightarrow> Inl IOError
      | Some sdb \<Rightarrow>
          if cache DbFile \<noteq> None \<and> newestOf src \<le> newestOf cache
          then Inr (False, cache)
          else Inr (True, copied env src cache))"
  proof (cases "src DbFile")
    case None
    then show ?thesis
      by (simp add: copyPhase_def needsCopy_def copyFiles_def split: option.splits)
  next
    case (Some sdb)
    then show ?thesis
      by (simp add: copyPhase_decision[of src sdb env cache, OF Some])
  qed
  have left: "bytes (cacheAfter env src cache) =
     (case src DbFile of
        None \<Rightarrow> bytes cache
      | Some sdb \<Rightarrow>
          if cache DbFile \<noteq> None \<and> newestOf src \<le> newestOf cache
          then bytes (snd (checkpoint env cache))
          else bytes (snd (checkpoint env (copied env src cache))))"
    by (cases "src DbFile") (simp_all add: cacheAfter_def syncSafari_cases bytes_restoreTimestamps)
  have over: "bytes (copied env src cache) =
     map (\<lambda>s. case src s of None \<Rightarrow> map_option content (cache s) | Some f \<Rightarrow> Some (content f))
       [DbFile, WalFile, ShmFile]"
    by (simp add: bytes_def copied_def split: option.splits)
  from syncSafari_cases[of env src cache] phase left over show ?thesis
    by blast
qed

theorem safari_copy_decision_witness:
  "fst (syncSafari idleSys liveSource staleCache) = Inr Copied
   \<and> bytes (cacheAfter idleSys liveSource staleCache) = [Some ''db'', Some ''wal'', Some ''oldshm'']
   \<and> fst (syncSafari idleSys liveSource touchedCache) = Inr Fresh
   \<and> bytes (cacheAfter idleSys liveSource touchedCache) = [Some ''db'', None, None]
   \<and> fst (syncSafari idleSys liveSource Map.empty) = Inr Copied
   \<and> bytes (cacheAfter idleSys liveSource Map.empty) = [Some ''db'', Some ''wal'', None]
   \<and> fst (syncSafari idleSys Map.empty touchedCache) = Inl IOError
   \<and> bytes (cacheAfter idleSys Map.empty touchedCache) = [Some ''db'', None, None]"
proof -
  have newest: "newestOf liveSource = 80" "newestOf touchedCache = 100" "newestOf staleCache = 10"
    by (simp_all add: newestOf_def present_def liveSource_def touchedCache_def staleCache_def)
  have files: "touchedCache DbFile = Some \<lparr>mtimeMs = 100, atimeMs = 100, content = ''db''\<rparr>"
    "staleCache DbFile = Some \<lparr>mtimeMs = 10, atimeMs = 10, content = ''old''\<rparr>"
    "liveSource DbFile = Some \<lparr>mtimeMs = 50, atimeMs = 50, content = ''db''\<rparr>"
    by (simp_all add: liveSource_def touchedCache_def staleCache_def)
  have idle: "checkpoint idleSys c = (True, c)" for c
    by (simp add: idleSys_def)
  have before: "bytes touchedCache = [Some ''db'', None, None]"
    by (simp add: bytes_def touchedCache_def)
  have over: "bytes (copied idleSys liveSource staleCache) = [Some ''db'', Some ''wal'', Some ''oldshm'']"
    "bytes (copied idleSys liveSource Map.empty) = [Some ''db'', Some ''wal'', None]"
    by (simp_all add: bytes_def copied_def liveSource_def staleCache_def)
  from safari_copy_decision[of idleSys liveSource staleCache]
  have stale: "fst (syncSafari idleSys liveSource staleCache) = Inr Copied"
    "bytes (cacheAfter idleSys liveSource staleCache) = bytes (copied idleSys liveSource staleCache)"
    by (simp_all add: newest files idle)
  from safari_copy_decision[of idleSys liveSource touchedCache]
  have fresh: "fst (syncSafari idleSys liveSource touchedCache) = Inr Fresh"
    "bytes (cacheAfter idleSys liveSource touchedCache) = bytes touchedCache"
    by (simp_all add: newest files idle)
  from safari_copy_decision[of idleSys liveSource Map.empty]
  have first: "fst (syncSafari idleSys liveSource Map.empty) = Inr Copied"
    "bytes (cacheAfter idleSys liveSource Map.empty) = bytes (copied idleSys liveSource Map.empty)"
    by (simp_all add: files idle)
  from safari_copy_decision[of idleSys Map.empty touchedCache]
  have missing: "fst (syncSafari idleSys Map.empty touchedCache) = Inl IOError"
    "bytes (cacheAfter idleSys Map.empty touchedCache) = bytes touchedCache"
    by simp_all
  from stale fresh first missing show ?thesis
    by (simp add: over before)
qed

text \<open>
  C3. Every tab group either reader emits has at least one tab. The Safari reader emits
  exactly the group rows of a query result that have a selected tab row; the Raindrop
  normalizer emits exactly the collections that some raindrop with a link names.
\<close>

theorem emitted_groups_nonempty:
  "(\<forall>p \<in> set (safariProfiles db). \<forall>g \<in> set (tabGroups p). tabs g \<noteq> [])
   \<and> (\<forall>p \<in> set (toTabGroups cache). \<forall>g \<in> set (tabGroups p). tabs g \<noteq> [])
   \<and> map tabGroups (safariProfiles db) = map (map (rowGroup db)) (profileRows db)
   \<and> (\<forall>rows \<in> set (profileRows db). \<forall>g \<in> set rows. tabRows db (b_id g) \<noteq> [])
   \<and> map tabGroups (toTabGroups cache) =
       [map (\<lambda>col. \<lparr>name = fullTitle (titleById (collections cache)) col,
                    tabs = linkedTabs (raindrops cache) (c_id col)\<rparr>)
          (filter (\<lambda>col. linkedTabs (raindrops cache) (c_id col) \<noteq> []) (collections cache))]"
proof -
  have "tabs g \<noteq> []" if "p \<in> set (safariProfiles db)" "g \<in> set (tabGroups p)" for p g
    using that safariProfiles_groups pushGroups_nonempty by metis
  moreover have "tabs g \<noteq> []" if "p \<in> set (toTabGroups cache)" "g \<in> set (tabGroups p)" for p g
    using toTabGroups_group[OF that] by auto
  moreover have "map tabGroups (safariProfiles db) = map (map (rowGroup db)) (profileRows db)"
    by (simp add: safariProfiles_def personalProfile_def profileEntry_def profileRows_def
        pushGroups_rows comp_def)
  moreover have "\<forall>rows \<in> set (profileRows db). \<forall>g \<in> set rows. tabRows db (b_id g) \<noteq> []"
    by (auto simp: profileRows_def emittedGroups_def)
  ultimately show ?thesis
    by (simp add: toTabGroups_linked)
qed

theorem emitted_groups_nonempty_witness:
  "tabs (tabGroups (toTabGroups devCache ! 0) ! 0) \<noteq> []
   \<and> tabs (tabGroups (safariProfiles exampleDb ! 0) ! 0) \<noteq> []
   \<and> map (map name) (map tabGroups (safariProfiles exampleDb))
       = [[''Travel'', ''Research''], [''(untitled)'']]
   \<and> tabRows exampleDb (b_id (profileRows exampleDb ! 0 ! 0)) \<noteq> []"
proof -
  note inst = emitted_groups_nonempty[of exampleDb devCache]
  have names: "name (rowGroup exampleDb (exampleDb ! 2)) = ''Travel''"
    "name (rowGroup exampleDb (exampleDb ! 0)) = ''Research''"
    "name (rowGroup exampleDb (exampleDb ! 8)) = ''(untitled)''"
    by (simp_all add: rowGroup_def groupName_def exampleDb_def)
  from inst have groups: "map tabGroups (safariProfiles exampleDb)
      = [[rowGroup exampleDb (exampleDb ! 2), rowGroup exampleDb (exampleDb ! 0)],
         [rowGroup exampleDb (exampleDb ! 8)]]"
    by (simp add: exampleDb_profileRows)
  then have first: "tabGroups (safariProfiles exampleDb ! 0)
      = [rowGroup exampleDb (exampleDb ! 2), rowGroup exampleDb (exampleDb ! 0)]"
    by (cases "safariProfiles exampleDb") simp_all
  have mem: "safariProfiles exampleDb ! 0 \<in> set (safariProfiles exampleDb)"
    by (simp add: safariProfiles_def)
  from inst mem first have a: "tabs (tabGroups (safariProfiles exampleDb ! 0) ! 0) \<noteq> []"
    by simp
  from inst have "\<forall>p \<in> set (toTabGroups devCache). \<forall>g \<in> set (tabGroups p). tabs g \<noteq> []"
    by blast
  then have b: "tabs (tabGroups (toTabGroups devCache ! 0) ! 0) \<noteq> []"
    by (simp add: devCache_groups)
  from inst have c: "tabRows exampleDb (b_id (profileRows exampleDb ! 0 ! 0)) \<noteq> []"
    by (simp add: exampleDb_profileRows)
  from groups names have d: "map (map name) (map tabGroups (safariProfiles exampleDb))
       = [[''Travel'', ''Research''], [''(untitled)'']]"
    by simp
  from a b c d show ?thesis
    by simp
qed

text \<open>
  C4. With row ids that are unique (\<open>id\<close> is the primary key): the groups of every profile
  come from group rows whose ids strictly decrease, and the tabs of every group come from
  tab rows whose \<open>order_index\<close> ascends.
\<close>

theorem safari_ordering:
  assumes "distinct (map b_id db)"
  shows "map tabGroups (safariProfiles db) = map (map (rowGroup db)) (profileRows db)
         \<and> (\<forall>rows \<in> set (profileRows db). sorted_wrt (\<lambda>a b. b_id b < b_id a) rows)
         \<and> (\<forall>g. tabs (rowGroup db g) = map rowTab (tabRows db (b_id g)))
         \<and> (\<forall>gid. sorted (map b_order_index (tabRows db gid)))"
proof -
  have 1: "map tabGroups (safariProfiles db) = map (map (rowGroup db)) (profileRows db)"
    by (simp add: safariProfiles_def personalProfile_def profileEntry_def profileRows_def
        pushGroups_rows comp_def)
  have 2: "sorted_wrt (\<lambda>a b. b_id b < b_id a)
             (emittedGroups db (rev (sort_key b_id (filter P db))))" for P
    unfolding emittedGroups_def by (rule sorted_wrt_filter) (rule desc_by_id[OF assms])
  have 3: "\<forall>rows \<in> set (profileRows db). sorted_wrt (\<lambda>a b. b_id b < b_id a) rows"
    by (auto simp: profileRows_def personalGroups_def profileGroups_def 2)
  have 4: "sorted (map b_order_index (tabRows db gid))" for gid
    by (simp add: tabRows_def)
  show ?thesis
    using 1 3 4 by (simp add: rowGroup_def)
qed

theorem safari_ordering_witness:
  "distinct (map b_id exampleDb)
   \<and> map (map b_id) (profileRows exampleDb) = [[7, 5], [21]]
   \<and> sorted_wrt (\<lambda>a b. b_id b < b_id a) (profileRows exampleDb ! 0)
   \<and> map b_order_index (tabRows exampleDb 5) = [0, 1]
   \<and> sorted (map b_order_index (tabRows exampleDb 5))
   \<and> map (map (map title \<circ> tabs)) (map tabGroups (safariProfiles exampleDb))
       = [[[''Trains''], [''A page'', ''B page'']], [[''Docs'']]]"
proof -
  have d: "distinct (map b_id exampleDb)"
    by (simp add: exampleDb_def)
  have ids: "map (map b_id) (profileRows exampleDb) = [[7, 5], [21]]"
    by (simp add: exampleDb_profileRows) (simp add: exampleDb_def)
  have idx: "map b_order_index (tabRows exampleDb 5) = [0, 1]"
    by (simp add: exampleDb_tabRows) (simp add: exampleDb_def)
  have "b_id (exampleDb ! 0) = 5" "b_id (exampleDb ! 2) = 7" "b_id (exampleDb ! 8) = 21"
    by (simp_all add: exampleDb_def)
  then have titles: "map (map (map title \<circ> tabs)) (map (map (rowGroup exampleDb)) (profileRows exampleDb))
       = [[[''Trains''], [''A page'', ''B page'']], [[''Docs'']]]"
    by (simp add: exampleDb_profileRows rowGroup_def exampleDb_tabRows)
       (simp add: rowTab_def exampleDb_def)
  from safari_ordering[OF d] have
    "map tabGroups (safariProfiles exampleDb) = map (map (rowGroup exampleDb)) (profileRows exampleDb)"
    "sorted_wrt (\<lambda>a b. b_id b < b_id a) (profileRows exampleDb ! 0)"
    "sorted (map b_order_index (tabRows exampleDb 5))"
    by (simp_all add: exampleDb_profileRows)
  with d ids idx titles show ?thesis
    by simp
qed

text \<open>
  C5, as the claim states it: a collection whose parent id is in the lookup is named
  \<open>parentTitle + " / " + ownTitle\<close>. Here the parent 1 is in the lookup with the empty
  title, and the child is named by its own title alone, not \<open>" / Frameworks"\<close>.
\<close>

theorem fullTitle_blank_parent_counterexample:
  "titleById (collections blankParentCache) 1 = Some []
   \<and> map (map name) (map tabGroups (toTabGroups blankParentCache)) = [[''Frameworks'']]
   \<and> ''Frameworks'' \<noteq> [] @ '' / '' @ ''Frameworks''"
  by (simp add: toTabGroups_def titleById_def raindropsByCollection_def groupRaindrop_def
      raindropTab_def fullTitle_def blankParentCache_def bunRaindrop_def)

text \<open>
  C5, amended. The name of a collection is \<open>parentTitle + " / " + ownTitle\<close> when its parent
  id is not 0 and the last fetched collection carrying that id has a non-empty title
  \<open>parentTitle\<close>; it is \<open>ownTitle\<close> in every other case. The title joined in is the parent's
  own title, so no title of a grandparent enters the name. Every group of the output is named
  in this way after one of the fetched collections.
\<close>

theorem fullTitle_one_level:
  "fullTitle (titleById cs) col =
     (case c_parent col of
        None \<Rightarrow> c_title col
      | Some p \<Rightarrow>
          (case lastTitle cs p of
             None \<Rightarrow> c_title col
           | Some parentTitle \<Rightarrow>
               if p \<noteq> 0 \<and> parentTitle \<noteq> [] then parentTitle @ '' / '' @ c_title col
               else c_title col))
   \<and> (lastTitle cs k = None \<longleftrightarrow> k \<notin> c_id ` set cs)
   \<and> (\<forall>t. lastTitle cs k = Some t \<longrightarrow> (\<exists>c \<in> set cs. c_id c = k \<and> c_title c = t))
   \<and> (\<forall>p \<in> set (toTabGroups cache). \<forall>g \<in> set (tabGroups p).
         \<exists>col \<in> set (collections cache). name g = fullTitle (titleById (collections cache)) col)"
proof -
  have "fullTitle (titleById cs) col =
     (case c_parent col of
        None \<Rightarrow> c_title col
      | Some p \<Rightarrow>
          (case lastTitle cs p of
             None \<Rightarrow> c_title col
           | Some parentTitle \<Rightarrow>
               if p \<noteq> 0 \<and> parentTitle \<noteq> [] then parentTitle @ '' / '' @ c_title col
               else c_title col))"
    by (simp add: fullTitle_def titleById_lastTitle split: option.splits)
  moreover have "\<forall>p \<in> set (toTabGroups cache). \<forall>g \<in> set (tabGroups p).
         \<exists>col \<in> set (collections cache). name g = fullTitle (titleById (collections cache)) col"
    using toTabGroups_group by blast
  ultimately show ?thesis
    using lastTitle_None[of cs k] lastTitle_Some[of cs k] by blast
qed

theorem fullTitle_one_level_witness:
  "fullTitle (titleById devCollections) (devCollections ! 1) = ''Dev Tools / Frameworks''
   \<and> fullTitle (titleById devCollections) (devCollections ! 0) = ''Dev Tools''
   \<and> lastTitle devCollections 1 = Some ''Dev Tools''
   \<and> lastTitle devCollections 3 = None"
proof -
  have "lastTitle devCollections 1 = Some ''Dev Tools''" "lastTitle devCollections 3 = None"
    "c_parent (devCollections ! 1) = Some 1" "c_parent (devCollections ! 0) = None"
    "c_title (devCollections ! 1) = ''Frameworks''" "c_title (devCollections ! 0) = ''Dev Tools''"
    by (simp_all add: devCollections_def)
  then show ?thesis
    using fullTitle_one_level[where cs = devCollections and col = "devCollections ! 1"
        and k = 1 and cache = devCache]
      fullTitle_one_level[where cs = devCollections and col = "devCollections ! 0"
        and k = 3 and cache = devCache]
    by simp
qed

text \<open>
  C6. \<open>list.ts\<close> ends with the all-sources-failed error exactly when every requested source
  failed (a source is requested by its flag, and both are when neither flag is given).
  Otherwise it succeeds, and its profiles are those of the requested sources that
  succeeded, concatenated in the order the sources finished; a failed source adds none.
\<close>

theorem aggregator_partial_failure:
  "listTabgroups sf rf rfirst sRun rRun =
     (if (sf \<or> \<not> rf \<longrightarrow> isl sRun) \<and> (rf \<or> \<not> sf \<longrightarrow> isl rRun) then Inl AllSourcesFailed
      else Inr (if rfirst
                then contribution (rf \<or> \<not> sf) rRun @ contribution (sf \<or> \<not> rf) sRun
                else contribution (sf \<or> \<not> rf) sRun @ contribution (rf \<or> \<not> sf) rRun))"
  by (cases sRun; cases rRun; cases sf; cases rf; cases rfirst)
     (simp_all add: listTabgroups_def finishSource_def contribution_def)

theorem aggregator_partial_failure_witness:
  "listTabgroups False False False (Inl NoCachedData) (Inr (toTabGroups devCache))
     = Inr (toTabGroups devCache)
   \<and> listTabgroups False False False (Inl NoCachedData) (Inl NoCachedData) = Inl AllSourcesFailed
   \<and> listTabgroups True False False (Inl NoCachedData) (Inr (toTabGroups devCache))
     = Inl AllSourcesFailed"
  using aggregator_partial_failure[of False False False "Inl NoCachedData" "Inr (toTabGroups devCache)"]
    aggregator_partial_failure[of False False False "Inl NoCachedData" "Inl NoCachedData"]
    aggregator_partial_failure[of True False False "Inl NoCachedData" "Inr (toTabGroups devCache)"]
  by (simp add: contribution_def)

text \<open>
  C7. When page \<open>n\<close> is the first page with fewer than 50 items and every page before it
  arrived with at least 50, the sweep requests exactly the pages \<open>0, \<dots>, n\<close> in this order,
  returns, and returns the items of these pages concatenated in this order. When the
  server never sends more than the 50 items asked for, every page before the last holds
  exactly 50.
\<close>

theorem paginated_sweep:
  assumes "\<forall>i<n. \<exists>items. server i = Inr items \<and> 50 \<le> length items"
      and "server n = Inr lastp" and "length lastp < 50"
  shows "fetchAllRaindrops server =
           Some ([0..<Suc n], Inr (concat (map (pageItems server) [0..<Suc n])))
         \<and> ((\<forall>i items. server i = Inr items \<longrightarrow> length items \<le> 50)
              \<longrightarrow> (\<forall>i<n. length (pageItems server i) = 50))"
proof -
  have "fetchPages server 0 [] [] =
          Some ([] @ [0..<0 + n + 1], Inr ([] @ concat (map (pageItems server) [0..<0 + n + 1])))"
    by (rule fetchPages_run) (use assms in simp_all)
  moreover have "length (pageItems server i) = 50"
    if "\<forall>i items. server i = Inr items \<longrightarrow> length items \<le> 50" "i < n" for i
  proof -
    from assms(1) that(2) obtain items where "server i = Inr items" "50 \<le> length items"
      by blast
    with that(1) show ?thesis by (fastforce simp: pageItems_def)
  qed
  ultimately show ?thesis
    by (simp add: fetchAllRaindrops_def)
qed

theorem paginated_sweep_witness:
  "fetchAllRaindrops twoPages = Some ([0, 1], Inr (replicate 50 bunRaindrop @ [strayRaindrop]))
   \<and> length (pageItems twoPages 0) = 50"
proof -
  have full: "\<forall>i<1. \<exists>items. twoPages i = Inr items \<and> 50 \<le> length items"
    by (simp add: twoPages_def)
  have lastp: "twoPages 1 = Inr [strayRaindrop]" "length [strayRaindrop] < 50"
    by (simp_all add: twoPages_def)
  have honest: "\<forall>i items. twoPages i = Inr items \<longrightarrow> length items \<le> 50"
    by (auto simp: twoPages_def split: if_splits)
  have pages: "pageItems twoPages 0 = replicate 50 bunRaindrop"
    "pageItems twoPages (Suc 0) = [strayRaindrop]"
    by (simp_all add: pageItems_def twoPages_def)
  have upt: "[0..<Suc 1] = [0, 1]"
    by (simp add: upt_rec)
  from paginated_sweep[OF full lastp] honest show ?thesis
    unfolding upt by (simp add: pages)
qed

text \<open>
  C8. The claim is that the second of two runs on unchanged source files takes the fresh
  branch. The sync restores the source's time stamps on the cached files so that it does,
  yet the second run copies again in each of these cases. A source database stamped at
  50.25 ms and an empty cache: the first run copies and gives the cached database the
  whole millisecond 50, which is older than the source, whether a \<open>Date\<close> truncates or
  rounds. A source with a newer log, and a checkpoint that removes the cached log: after
  the first run the newest cached stamp is the database's. A source with a newer log, and
  a cache that holds only a database stamped later: the first run is fresh and gives the
  cached database the older stamp of the source database.
\<close>

theorem second_sync_copies_again:
  "fst (syncSafari idleSys quietSource Map.empty) = Inr Copied
   \<and> stamps (cacheAfter idleSys quietSource Map.empty) = [Some 50, None, None]
   \<and> stamps quietSource = [Some (201 / 4), None, None]
   \<and> fst (syncSafari idleSys quietSource (cacheAfter idleSys quietSource Map.empty)) = Inr Copied
   \<and> fst (syncSafari roundingSys quietSource Map.empty) = Inr Copied
   \<and> fst (syncSafari roundingSys quietSource (cacheAfter roundingSys quietSource Map.empty))
       = Inr Copied
   \<and> fst (syncSafari closingSys liveSource Map.empty) = Inr Copied
   \<and> stamps (cacheAfter closingSys liveSource Map.empty) = [Some 50, None, None]
   \<and> stamps liveSource = [Some 50, Some 80, None]
   \<and> fst (syncSafari closingSys liveSource (cacheAfter closingSys liveSource Map.empty))
       = Inr Copied
   \<and> fst (syncSafari idleSys liveSource touchedCache) = Inr Fresh
   \<and> stamps (cacheAfter idleSys liveSource touchedCache) = [Some 50, None, None]
   \<and> fst (syncSafari idleSys liveSource (cacheAfter idleSys liveSource touchedCache)) = Inr Copied"
  by (simp add: syncSafari_def copyPhase_def needsCopy_def copyFiles_def copyFileSync_def
      restoreTimestamps_def newestMtime_def cacheAfter_def stamps_def idleSys_def
      roundingSys_def closingSys_def liveSource_def touchedCache_def quietSource_def
      quiet_stamp_whole)

text \<open>
  C9. The profile list of the Safari reader starts with the literal \<open>Personal\<close> profile,
  whatever its groups are, and continues with exactly one profile per row whose subtype
  is 2 and whose title is neither NULL nor empty, in the order of these rows in the
  table, each named by its row's title.
\<close>

theorem safari_profile_list:
  "pname (safariProfiles db ! 0) = ''Personal''
   \<and> map (\<lambda>p. Some (pname p)) (tl (safariProfiles db))
       = map b_title (filter (\<lambda>r. b_subtype r = 2 \<and> b_title r \<noteq> None \<and> b_title r \<noteq> Some []) db)
   \<and> length (safariProfiles db)
       = 1 + length (filter (\<lambda>r. b_subtype r = 2 \<and> b_title r \<noteq> None \<and> b_title r \<noteq> Some []) db)"
proof -
  have marker: "profileWhere = (\<lambda>r. b_subtype r = 2 \<and> b_title r \<noteq> None \<and> b_title r \<noteq> Some [])"
    by (auto simp: profileWhere_def fun_eq_iff split: option.splits)
  have "Some (profileTitle r) = b_title r" if "profileWhere r" for r
    using that by (auto simp: profileWhere_def profileTitle_def split: option.splits)
  then have "map (\<lambda>r. Some (profileTitle r)) (filter profileWhere db)
             = map b_title (filter profileWhere db)"
    by (intro map_cong) auto
  then have "pname (safariProfiles db ! 0) = ''Personal''
     \<and> map (\<lambda>p. Some (pname p)) (tl (safariProfiles db)) = map b_title (filter profileWhere db)
     \<and> length (safariProfiles db) = 1 + length (filter profileWhere db)"
    by (simp add: safariProfiles_def personalProfile_def profileEntry_def
        additionalProfiles_def comp_def)
  then show ?thesis
    unfolding marker .
qed

theorem safari_profile_list_witness:
  "map pname (safariProfiles twoProfilesDb) = [''Personal'', ''Work'', ''Home'']
   \<and> map pname (safariProfiles []) = [''Personal'']
   \<and> map tabGroups (safariProfiles []) = [[]]"
proof -
  have rows: "filter (\<lambda>r. b_subtype r = 2 \<and> b_title r \<noteq> None \<and> b_title r \<noteq> Some []) twoProfilesDb
              = [twoProfilesDb ! 0, twoProfilesDb ! 3]"
    "b_title (twoProfilesDb ! 0) = Some ''Work''" "b_title (twoProfilesDb ! 3) = Some ''Home''"
    by (simp_all add: twoProfilesDb_def)
  from safari_profile_list[of twoProfilesDb, unfolded rows(1)]
  have first: "pname (safariProfiles twoProfilesDb ! 0) = ''Personal''"
    and rest: "map (\<lambda>p. Some (pname p)) (tl (safariProfiles twoProfilesDb))
               = [Some ''Work'', Some ''Home'']"
    by (simp_all add: rows(2,3))
  have shape: "safariProfiles twoProfilesDb
               = safariProfiles twoProfilesDb ! 0 # tl (safariProfiles twoProfilesDb)"
    by (simp add: safariProfiles_def)
  from rest have "map pname (tl (safariProfiles twoProfilesDb)) = [''Work'', ''Home'']"
    by (auto simp: map_eq_Cons_conv)
  with first shape have two: "map pname (safariProfiles twoProfilesDb) = [''Personal'', ''Work'', ''Home'']"
    by (metis list.simps(9))
  from safari_profile_list[of "[]"]
  have "pname (safariProfiles [] ! 0) = ''Personal''" "length (safariProfiles []) = 1"
    by simp_all
  then have none: "map pname (safariProfiles []) = [''Personal'']"
    by (cases "safariProfiles []") simp_all
  have groups: "map tabGroups (safariProfiles []) = [[]]"
    by (simp add: safariProfiles_def personalProfile_def personalGroups_def additionalProfiles_def)
  from two none groups show ?thesis
    by simp
qed

text \<open>
  C10. A raindrop without a collection id changes nothing: the output with it, wherever it
  stands in the list, is the output without it. Every tab of the output comes from a
  raindrop that names the collection of its group.
\<close>

theorem unassigned_raindrop_ignored:
  assumes "r_collection r = None"
  shows "toTabGroups (cache\<lparr>raindrops := xs @ r # ys\<rparr>) = toTabGroups (cache\<lparr>raindrops := xs @ ys\<rparr>)
         \<and> (\<forall>p \<in> set (toTabGroups cache). \<forall>g \<in> set (tabGroups p). \<forall>t \<in> set (tabs g).
              \<exists>r' \<in> set (raindrops cache). r_collection r' \<noteq> None \<and> raindropTab r' = Some t)"
proof -
  have "toTabGroups (cache\<lparr>raindrops := xs @ r # ys\<rparr>) = toTabGroups (cache\<lparr>raindrops := xs @ ys\<rparr>)"
    using assms by (simp add: toTabGroups_def raindropsByCollection_skip)
  moreover have "\<exists>r' \<in> set (raindrops cache). r_collection r' \<noteq> None \<and> raindropTab r' = Some t"
    if "p \<in> set (toTabGroups cache)" "g \<in> set (tabGroups p)" "t \<in> set (tabs g)" for p g t
  proof -
    from toTabGroups_group[OF that(1,2)]
    obtain col :: Collection where "tabs g = linkedTabs (raindrops cache) (c_id col)"
      by blast
    with that(3) show ?thesis
      using linkedTabs_origin by fastforce
  qed
  ultimately show ?thesis by blast
qed

theorem unassigned_raindrop_ignored_witness:
  "r_collection strayRaindrop = None
   \<and> toTabGroups (devCache\<lparr>raindrops := [bunRaindrop] @ strayRaindrop # [noLinkRaindrop]\<rparr>)
     = [\<lparr>pname = ''Raindrop.io'',
         tabGroups = [\<lparr>name = ''Dev Tools / Frameworks'',
                       tabs = [\<lparr>title = ''Bun'', url = ''https://bun.sh''\<rparr>]\<rparr>]\<rparr>]"
proof -
  have stray: "r_collection strayRaindrop = None"
    by (simp add: strayRaindrop_def)
  have "devCache\<lparr>raindrops := [bunRaindrop] @ [noLinkRaindrop]\<rparr> = devCache"
    by (simp add: devCache_def)
  with unassigned_raindrop_ignored[where r = strayRaindrop and cache = devCache
      and xs = "[bunRaindrop]" and ys = "[noLinkRaindrop]", OF stray] stray
  show ?thesis
    by (simp add: devCache_groups)
qed

end
